theory Spec2Isabelle
  imports Complex_Main
begin

section \<open>JavaScript values used by the SDK\<close>

text \<open>
  Strings are lists of 8-bit characters (the Latin-1 code units of a JavaScript string).

  The numbers of the URL builder and of the dimensions memo are the values of a type
  parameter \<open>'n\<close>. Their arithmetic is the platform's and is a parameter of the model:
  \<open>num_times\<close> and \<open>num_divide\<close> are the product and the quotient of two numbers (IEEE 754
  doubles, with the infinities and \<open>NaN\<close>), \<open>Math_round\<close> is \<open>Math.round\<close>,
  \<open>num_to_string\<close> is the conversion of a number in a template string, and \<open>num_one\<close>
  is the number written \<open>1\<close>.
\<close>

record 'n Arithmetic =
  num_one :: 'n
  num_times :: "'n \<Rightarrow> 'n \<Rightarrow> 'n"
  num_divide :: "'n \<Rightarrow> 'n \<Rightarrow> 'n"
  Math_round :: "'n \<Rightarrow> 'n"
  num_to_string :: "'n \<Rightarrow> string"

text \<open>
  The sizes that the browser reports to the resize observer, and the rectangles and
  margins of the viewport test, are modelled as reals.
\<close>

type_synonym number = real

text \<open>Decimal digits of a natural number, most significant first.\<close>

function digits :: "nat \<Rightarrow> string" where
  "digits n =
     (if n < 10 then [''0123456789'' ! n]
      else digits (n div 10) @ [''0123456789'' ! (n mod 10)])"
  by pat_completeness auto
termination
  by (relation "measure id") auto

declare digits.simps [simp del]

text \<open>
  An instance of the arithmetic for closed examples. \<open>Exact n\<close> is the natural number
  \<open>n\<close>, tracked below \<open>2\<^sup>5\<^sup>3\<close> only; \<open>Other\<close> is any number that the instance does not
  track. A product or an exact quotient of tracked numbers that stays below \<open>2\<^sup>5\<^sup>3\<close> is
  what IEEE arithmetic gives, \<open>Math.round\<close> leaves such an integer as it is, and a
  template prints it in decimal digits. Everything else is \<open>Other\<close>, printed as a
  question mark to mark that the instance says nothing about it.
\<close>

datatype small_number = Exact nat | Other

definition exact :: "nat \<Rightarrow> small_number" where
  "exact n = (if n < 2 ^ 53 then Exact n else Other)"

definition small_numbers :: "small_number Arithmetic" where
  "small_numbers =
     \<lparr>num_one = Exact 1,
      num_times = (\<lambda>a b. case (a, b) of
         (Exact x, Exact y) \<Rightarrow> (if x < 2 ^ 53 \<and> y < 2 ^ 53 then exact (x * y) else Other)
       | _ \<Rightarrow> Other),
      num_divide = (\<lambda>a b. case (a, b) of
         (Exact x, Exact y) \<Rightarrow>
           (if x < 2 ^ 53 \<and> y < 2 ^ 53 \<and> y \<noteq> 0 \<and> y dvd x then exact (x div y) else Other)
       | _ \<Rightarrow> Other),
      Math_round = (\<lambda>a. case a of Exact x \<Rightarrow> exact x | Other \<Rightarrow> Other),
      num_to_string = (\<lambda>a. case a of
         Exact x \<Rightarrow> (if x < 2 ^ 53 then digits x else ''?'')
       | Other \<Rightarrow> ''?'')\<rparr>"

text \<open>\<open>String.prototype.startsWith\<close> and \<open>endsWith\<close>.\<close>

definition startsWith :: "string \<Rightarrow> string \<Rightarrow> bool" where
  "startsWith s p = (take (length p) s = p)"

definition endsWith :: "string \<Rightarrow> string \<Rightarrow> bool" where
  "endsWith s p = (length p \<le> length s \<and> drop (length s - length p) s = p)"

text \<open>\<open>Array.prototype.join\<close>.\<close>

fun join :: "string \<Rightarrow> string list \<Rightarrow> string" where
  "join sep [] = []"
| "join sep [x] = x"
| "join sep (x # y # ys) = x @ sep @ join sep (y # ys)"

text \<open>
  \<open>String.prototype.trim\<close> removes white space and line terminators at both ends; among
  the Latin-1 code units these are 9 to 13, 32 and 160.
\<close>

definition is_whitespace :: "char \<Rightarrow> bool" where
  "is_whitespace c = (of_char c \<in> {9, 10, 11, 12, 13, 32, 160 :: nat})"

definition trim_end :: "string \<Rightarrow> string" where
  "trim_end s = rev (dropWhile is_whitespace (rev s))"

definition trim :: "string \<Rightarrow> string" where
  "trim s = trim_end (dropWhile is_whitespace s)"




section \<open>helpers.ts: URL-safe base64\<close>

text \<open>
  \<open>btoa\<close> and \<open>atob\<close> are platform functions, written out after RFC 4648 and the
  forgiving-base64 decoder of the HTML standard. Every character of the model is a
  Latin-1 code unit, so \<open>btoa\<close> has no failing input here.
\<close>

definition b64_alphabet :: string where
  "b64_alphabet = ''ABCDEFGHIJKLMNOPQRSTUVWXYZabcdefghijklmnopqrstuvwxyz0123456789+/''"

text \<open>Three bytes give four 6-bit groups; a final group of one or two bytes is zero-filled.\<close>

fun sextets :: "nat list \<Rightarrow> nat list" where
  "sextets (a # b # c # bs) =
     [a div 4, (a mod 4) * 16 + b div 16, (b mod 16) * 4 + c div 64, c mod 64] @ sextets bs"
| "sextets [a, b] = [a div 4, (a mod 4) * 16 + b div 16, (b mod 16) * 4]"
| "sextets [a] = [a div 4, (a mod 4) * 16]"
| "sextets [] = []"

definition btoa :: "string \<Rightarrow> string" where
  "btoa s =
     map (\<lambda>n. b64_alphabet ! n) (sextets (map of_char s))
       @ replicate ((3 - length s mod 3) mod 3) CHR ''=''"

fun index_of :: "'a \<Rightarrow> 'a list \<Rightarrow> nat option" where
  "index_of x [] = None"
| "index_of x (y # ys) = (if x = y then Some 0 else map_option Suc (index_of x ys))"

text \<open>Four 6-bit groups give three bytes; the surplus bits of a final short group are dropped.\<close>

fun octets :: "nat list \<Rightarrow> nat list" where
  "octets (p # q # r # s # ns) =
     [p * 4 + q div 16, (q mod 16) * 16 + r div 4, (r mod 4) * 64 + s] @ octets ns"
| "octets [p, q, r] = [p * 4 + q div 16, (q mod 16) * 16 + r div 4]"
| "octets [p, q] = [p * 4 + q div 16]"
| "octets [p] = []"
| "octets [] = []"

definition ascii_whitespace :: "char \<Rightarrow> bool" where
  "ascii_whitespace c = (of_char c \<in> {9, 10, 12, 13, 32 :: nat})"

text \<open>When the length is a multiple of four, one or two final \<open>=\<close> are removed.\<close>

definition strip_padding :: "string \<Rightarrow> string" where
  "strip_padding d =
     (if length d mod 4 = 0 \<and> d \<noteq> [] \<and> last d = CHR ''='' then
        (if butlast d \<noteq> [] \<and> last (butlast d) = CHR ''='' then butlast (butlast d)
         else butlast d)
      else d)"

text \<open>\<open>atob\<close>: \<open>None\<close> is the \<open>InvalidCharacterError\<close> exception.\<close>

definition atob :: "string \<Rightarrow> string option" where
  "atob data =
     (let d = strip_padding (filter (\<lambda>c. \<not> ascii_whitespace c) data) in
      if length d mod 4 = 1 then None
      else map_option (\<lambda>ns. map char_of (octets ns))
             (those (map (\<lambda>c. index_of c b64_alphabet) d)))"

text \<open>\<open>replace\<close> with a global single-character pattern.\<close>

definition replace_all :: "char \<Rightarrow> char \<Rightarrow> string \<Rightarrow> string" where
  "replace_all a b s = map (\<lambda>c. if c = a then b else c) s"

definition remove_all :: "char \<Rightarrow> string \<Rightarrow> string" where
  "remove_all a s = filter (\<lambda>c. c \<noteq> a) s"

definition base64UrlEncode :: "string \<Rightarrow> string" where
  "base64UrlEncode v =
     remove_all CHR ''=''
       (replace_all CHR ''/'' CHR ''_'' (replace_all CHR ''+'' CHR ''-'' (btoa v)))"

definition base64UrlDecode :: "string \<Rightarrow> string option" where
  "base64UrlDecode v =
     atob (replace_all CHR ''_'' CHR ''/'' (replace_all CHR ''-'' CHR ''+'' v))"

text \<open>Padding restored to a multiple of four characters.\<close>

definition restore_padding :: "string \<Rightarrow> string" where
  "restore_padding s = s @ replicate ((4 - length s mod 4) mod 4) CHR ''=''"

text \<open>Characters that are neither \<open>=\<close>, \<open>-\<close>, \<open>_\<close> nor white space.\<close>

definition plain :: "char \<Rightarrow> bool" where
  "plain c =
     (c \<noteq> CHR ''='' \<and> c \<noteq> CHR ''-'' \<and> c \<noteq> CHR ''_'' \<and> \<not> ascii_whitespace c)"

section \<open>filejetImg.ts: the mutation URL builder\<close>

datatype ImgObjectFit = Contain | Cover

text \<open>
  Errors of the builder: \<open>InvalidDimensions\<close> is \<^verbatim>\<open>Error('Invalid width or height!')\<close>,
  \<open>InvalidURL\<close> the \<open>TypeError\<close> of the \<open>URL\<close> constructor.
\<close>

datatype builder_error = InvalidDimensions | InvalidURL

record 'n FilejetImgProps =
  src :: string
  width :: "'n option"
  height :: "'n option"
  dpiScale :: "'n list"
  fit :: ImgObjectFit
  backgroundColor :: string
  mutation :: "string option"
  filejetDomain :: string

record 'n HtmlImgProps =
  img_src :: string
  img_srcSet :: "(string \<times> 'n) list"
  img_width :: "'n option"
  img_height :: "'n option"

text \<open>\<^verbatim>\<open>${r(d * scale)}\<close> with \<open>r = Math.round\<close>.\<close>

definition scaled :: "'n Arithmetic \<Rightarrow> 'n \<Rightarrow> 'n \<Rightarrow> string" where
  "scaled ops d scale = num_to_string ops (Math_round ops (num_times ops d scale))"

text \<open>
  \<open>resize\<close>: the early return when both dimensions are absent comes first, as in the
  source; \<open>None\<close> is \<open>undefined\<close>. \<open>ImgObjectFit\<close> has two values, so the
  final \<open>assertUnreachable\<close> has no branch.
\<close>

definition resize ::
  "'n Arithmetic \<Rightarrow> 'n option \<Rightarrow> 'n option \<Rightarrow> 'n \<Rightarrow> ImgObjectFit \<Rightarrow> string
    \<Rightarrow> builder_error + string option" where
  "resize ops w h scale f bg =
     (if w = None \<and> h = None then Inr None
      else case f of
        Cover \<Rightarrow>
          (case (w, h) of
            (Some w', Some h') \<Rightarrow>
              Inr (Some (join '',''
                [''resize_'' @ scaled ops w' scale @ ''x'' @ scaled ops h' scale @ ''min'',
                 ''fit_'' @ scaled ops w' scale @ ''x'' @ scaled ops h' scale,
                 ''bg_'' @ bg]))
          | (Some w', None) \<Rightarrow> Inr (Some (''resize_'' @ scaled ops w' scale @ ''min''))
          | (None, Some h') \<Rightarrow> Inr (Some (''resize_x'' @ scaled ops h' scale @ ''min''))
          | (None, None) \<Rightarrow> Inl InvalidDimensions)
      | Contain \<Rightarrow>
          (case (w, h) of
            (Some w', Some h') \<Rightarrow>
              Inr (Some (''resize_'' @ scaled ops w' scale @ ''x'' @ scaled ops h' scale @ ''shrink''))
          | (Some w', None) \<Rightarrow> Inr (Some (''resize_'' @ scaled ops w' scale @ ''shrink''))
          | (None, Some h') \<Rightarrow> Inr (Some (''resize_x'' @ scaled ops h' scale @ ''shrink''))
          | (None, None) \<Rightarrow> Inl InvalidDimensions))"

text \<open>
  \<open>combineMutations\<close>: \<open>filter(isNotNil)\<close> keeps the present parts, each is trimmed, and
  the parts are joined with a comma.
\<close>

definition combineMutations :: "string option list \<Rightarrow> string option" where
  "combineMutations mutations =
     (if mutations = [] then None
      else Some (join '','' [trim m. Some m \<leftarrow> mutations]))"

text \<open>Template interpolation of \<open>string | undefined\<close>.\<close>

definition interpolate :: "string option \<Rightarrow> string" where
  "interpolate v = (case v of None \<Rightarrow> ''undefined'' | Some s \<Rightarrow> s)"

text \<open>The constant \<open>mutation\<close> of \<open>imgSrc\<close>.\<close>

definition imgSrc_mutation ::
  "'n Arithmetic \<Rightarrow> 'n FilejetImgProps \<Rightarrow> 'n \<Rightarrow> builder_error + string option" where
  "imgSrc_mutation ops props scale =
     (case resize ops (width props) (height props) scale (fit props) (backgroundColor props) of
        Inl e \<Rightarrow> Inl e
      | Inr r \<Rightarrow> Inr (combineMutations [r, mutation props, Some ''auto'']))"

text \<open>The test of \<open>imgSrc\<close> for an external source.\<close>

definition is_external :: "string \<Rightarrow> bool" where
  "is_external s =
     list_ex (\<lambda>prefix. startsWith s prefix) [''https://'', ''./'', ''../'', ''/'', ''//'']"

text \<open>
  \<open>imgSrc\<close>. The parameter \<open>URL_href\<close> stands for
  \<^verbatim>\<open>new URL(props.src, document.baseURI).href\<close>; it is \<open>None\<close> where the constructor
  throws.
\<close>

definition imgSrc ::
  "'n Arithmetic \<Rightarrow> (string \<Rightarrow> string option) \<Rightarrow> 'n FilejetImgProps \<Rightarrow> 'n
    \<Rightarrow> builder_error + string" where
  "imgSrc ops URL_href props scale =
     (case imgSrc_mutation ops props scale of
        Inl e \<Rightarrow> Inl e
      | Inr m \<Rightarrow>
          if is_external (src props) then
            (case URL_href (src props) of
               None \<Rightarrow> Inl InvalidURL
             | Some href \<Rightarrow>
                 Inr (''https://'' @ filejetDomain props @ ''/''
                      @ (''@ext_'' @ base64UrlEncode href) @ ''/'' @ interpolate m))
          else
            Inr (''https://'' @ filejetDomain props @ ''/'' @ src props @ ''/''
                 @ interpolate m))"

text \<open>All results of a list of computations, or the first error.\<close>

fun sequence :: "('e + 'a) list \<Rightarrow> 'e + 'a list" where
  "sequence [] = Inr []"
| "sequence (Inl e # xs) = Inl e"
| "sequence (Inr x # xs) = (case sequence xs of Inl e \<Rightarrow> Inl e | Inr ys \<Rightarrow> Inr (x # ys))"

text \<open>
  \<open>filejetImg\<close>. The \<open>srcSet\<close> is kept as the list of URLs with their scales; the source
  prints each pair as \<^verbatim>\<open>`${url} ${scale}x`\<close> and joins them with a comma and a space.
\<close>

definition filejetImg ::
  "'n Arithmetic \<Rightarrow> (string \<Rightarrow> string option) \<Rightarrow> 'n FilejetImgProps
    \<Rightarrow> builder_error + 'n HtmlImgProps" where
  "filejetImg ops URL_href props =
     (case imgSrc ops URL_href props (num_one ops) of
        Inl e \<Rightarrow> Inl e
      | Inr u \<Rightarrow>
          (case sequence (map (imgSrc ops URL_href props) (dpiScale props)) of
             Inl e \<Rightarrow> Inl e
           | Inr us \<Rightarrow>
               Inr \<lparr>img_src = u, img_srcSet = zip us (dpiScale props),
                    img_width = width props, img_height = height props\<rparr>))"

section \<open>react/img.tsx: the image widget\<close>

record ParsedThumbhash =
  thumbhash_id :: string
  thumbhash_data :: "nat list"

text \<open>
  The dimensions memo of \<open>Img\<close> without percentage sizes. The parameter \<open>ratio_of\<close> stands
  for \<open>thumbHashToApproximateAspectRatio\<close> of the thumbhash package.
\<close>

definition Img_dimensions ::
  "'n Arithmetic \<Rightarrow> (nat list \<Rightarrow> 'n) \<Rightarrow> 'n option \<Rightarrow> 'n option \<Rightarrow> ParsedThumbhash option
    \<Rightarrow> 'n option \<times> 'n option" where
  "Img_dimensions ops ratio_of w h thumbhash =
     (case (w, h) of
        (Some w', Some h') \<Rightarrow> (Some w', Some h')
      | _ \<Rightarrow>
        (case (w, thumbhash) of
           (Some w', Some t) \<Rightarrow>
             (Some w', Some (Math_round ops (num_divide ops w' (ratio_of (thumbhash_data t)))))
         | _ \<Rightarrow>
           (case (h, thumbhash) of
              (Some h', Some t) \<Rightarrow>
                (Some (Math_round ops (num_times ops h' (ratio_of (thumbhash_data t)))), Some h')
            | _ \<Rightarrow> (w, h))))"

text \<open>A width or height property of the widget with percentage sizes: a number or a string.\<close>

datatype 'n Dimension = Number 'n | Text string

definition isPercentage :: "'n Dimension option \<Rightarrow> bool" where
  "isPercentage d = (case d of Some (Text s) \<Rightarrow> endsWith s ''%'' | _ \<Rightarrow> False)"

record 'n WrapperSizes =
  ws_width :: "'n option"
  ws_height :: "'n option"

text \<open>\<open>numericWidth\<close> and \<open>numericHeight\<close> of the dimensions memo with percentage sizes.\<close>

definition numeric :: "'n Dimension option \<Rightarrow> 'n option \<Rightarrow> 'n option" where
  "numeric d measured =
     (case d of
        Some (Number n) \<Rightarrow> (if \<not> isPercentage d then Some n else measured)
      | _ \<Rightarrow> measured)"

definition Img_dimensions_measured ::
  "'n Arithmetic \<Rightarrow> (nat list \<Rightarrow> 'n) \<Rightarrow> 'n Dimension option \<Rightarrow> 'n Dimension option
    \<Rightarrow> ParsedThumbhash option \<Rightarrow> 'n WrapperSizes \<Rightarrow> 'n option \<times> 'n option" where
  "Img_dimensions_measured ops ratio_of w h thumbhash wrapperSizes =
     Img_dimensions ops ratio_of (numeric w (ws_width wrapperSizes))
       (numeric h (ws_height wrapperSizes)) thumbhash"

text \<open>
  One entry of the \<open>ResizeObserver\<close> callback. \<open>pw\<close> and \<open>ph\<close> are
  \<open>isPercentage.width\<close> and \<open>isPercentage.height\<close>, \<open>w\<close> and \<open>h\<close> the resolved
  dimensions and \<open>wrapperSizes\<close> the state the effect closed over. The result is the
  argument of the last \<open>setWrapperSizes\<close> call so far, \<open>None\<close> when there was none.
\<close>

definition observe_entry ::
  "bool \<Rightarrow> bool \<Rightarrow> number \<Rightarrow> number \<Rightarrow> number WrapperSizes
    \<Rightarrow> number WrapperSizes option \<Rightarrow> number \<times> number \<Rightarrow> number WrapperSizes option" where
  "observe_entry pw ph w h wrapperSizes pending entry =
     (case entry of (newWidth, newHeight) \<Rightarrow>
        (let s1 = (if pw \<and> ph \<and> (newWidth > 1.5 * w \<or> newWidth < 0.75 * w)
                   then Some \<lparr>ws_width = Some newWidth, ws_height = Some newHeight\<rparr>
                   else pending);
             s2 = (if pw \<and> \<not> ph \<and> (newWidth > 1.5 * w \<or> newWidth < 0.75 * w)
                   then Some (wrapperSizes\<lparr>ws_width := Some newWidth\<rparr>)
                   else s1);
             s3 = (if \<not> pw \<and> ph \<and> (newHeight > 1.5 * h \<or> newHeight < 0.75 * h)
                   then Some (wrapperSizes\<lparr>ws_height := Some newHeight\<rparr>)
                   else s2)
         in s3))"

text \<open>
  The resize effect: no observer unless the image element is mounted, both dimensions
  are resolved and one of them is a percentage.
\<close>

definition resize_observer ::
  "bool \<Rightarrow> bool \<Rightarrow> bool \<Rightarrow> number option \<Rightarrow> number option \<Rightarrow> number WrapperSizes
    \<Rightarrow> (number \<times> number) list \<Rightarrow> number WrapperSizes option" where
  "resize_observer img_mounted pw ph w h wrapperSizes entries =
     (case (w, h) of
        (Some w', Some h') \<Rightarrow>
          (if img_mounted \<and> (pw \<or> ph)
           then foldl (observe_entry pw ph w' h' wrapperSizes) None entries
           else None)
      | _ \<Rightarrow> None)"

text \<open>The band of the size heuristic around a previous value.\<close>

definition in_band :: "number \<Rightarrow> number \<Rightarrow> bool" where
  "in_band previous x = (0.75 * previous \<le> x \<and> x \<le> 1.5 * previous)"

datatype LoadingState = Loading | Loaded | Error

record ImgState =
  loadingState :: LoadingState
  loadingFailed :: bool

definition initial :: ImgState where
  "initial = \<lparr>loadingState = Loading, loadingFailed = False\<rparr>"

text \<open>
  The signals of the image element: \<open>DecodeComplete\<close> is the continuation of \<open>onLoad\<close>
  after \<open>decode()\<close> has resolved, \<open>LoadFailure\<close> is \<open>onError\<close>.
\<close>

datatype Signal = DecodeComplete | LoadFailure

fun handle :: "ImgState \<Rightarrow> Signal \<Rightarrow> ImgState" where
  "handle st DecodeComplete = st\<lparr>loadingState := Loaded\<rparr>"
| "handle st LoadFailure = st\<lparr>loadingFailed := True, loadingState := Error\<rparr>"

definition run :: "Signal list \<Rightarrow> ImgState" where
  "run signals = foldl handle initial signals"

text \<open>The children of the wrapper element, in the order of the source.\<close>

datatype Layer = ImgElement | ThumbhashLayer | PlaceholderNode | ErrorNode

definition render :: "ImgState \<Rightarrow> ParsedThumbhash option \<Rightarrow> Layer list" where
  "render st thumbhash =
     (if loadingState st \<noteq> Error then [ImgElement] else [])
     @ (if loadingState st \<noteq> Loaded \<and> thumbhash \<noteq> None then [ThumbhashLayer] else [])
     @ (if loadingState st \<noteq> Loaded \<and> thumbhash = None then [PlaceholderNode] else [])
     @ (if loadingState st = Error then [ErrorNode] else [])"

text \<open>
  \<open>shouldRenderThumbhash\<close>: \<open>img\<close> is \<open>imgRef.current\<close>, \<open>None\<close> when there is no
  element and otherwise its \<open>complete\<close> flag.
\<close>

definition shouldRenderThumbhash :: "bool option \<Rightarrow> ImgState \<Rightarrow> bool" where
  "shouldRenderThumbhash img st =
     (case img of None \<Rightarrow> True | Some is_complete \<Rightarrow> \<not> is_complete \<or> loadingFailed st)"

section \<open>react/thumbhash.tsx: scheduling the placeholder decode\<close>

datatype ImgPriority = High | Low | Auto

record DOMRect =
  rect_left :: number
  rect_right :: number
  rect_top :: number
  rect_bottom :: number

record Viewport =
  innerWidth :: number
  innerHeight :: number

definition isInViewport :: "DOMRect \<Rightarrow> Viewport \<Rightarrow> number \<Rightarrow> bool" where
  "isInViewport rect window rootMargin =
     (let intersectingX =
            (rect_left rect \<le> innerWidth window + rootMargin
              \<and> rect_right rect \<ge> 0 - rootMargin);
          intersectingY =
            (rect_top rect \<le> innerHeight window + rootMargin
              \<and> rect_bottom rect \<ge> 0 - rootMargin)
      in intersectingX \<and> intersectingY)"

record ThumbhashState =
  thumbhash_src :: "string option"
  decodingRequested :: bool

text \<open>
  The \<open>ref\<close> callback: whether an animation frame is requested, and the state after it.
\<close>

definition ref_callback :: "bool \<Rightarrow> ThumbhashState \<Rightarrow> bool \<times> ThumbhashState" where
  "ref_callback elm_present st =
     (if \<not> elm_present then (False, st)
      else if thumbhash_src st \<noteq> None then (False, st)
      else if decodingRequested st then (False, st)
      else (True, st\<lparr>decodingRequested := True\<rparr>))"

text \<open>
  What the animation-frame callback does: nothing, \<open>decode()\<close> at once, or the
  registration of an intersection observer.
\<close>

datatype FrameAction = Skip | Decode | Observe

definition animation_frame ::
  "ImgPriority \<Rightarrow> bool \<Rightarrow> DOMRect \<Rightarrow> Viewport \<Rightarrow> number \<Rightarrow> FrameAction" where
  "animation_frame priority shouldRender rect window rootMargin =
     (if \<not> shouldRender then Skip
      else if priority \<noteq> Low \<and> isInViewport rect window rootMargin then Decode
      else Observe)"

text \<open>
  The function that the intersection callback hands to \<open>tryDecode\<close>; \<open>shouldRender\<close> is
  the value of the predicate when the function runs.
\<close>

definition try_decode :: "bool \<Rightarrow> FrameAction" where
  "try_decode shouldRender = (if \<not> shouldRender then Skip else Decode)"

text \<open>
  What the intersection callback does with its entries (each its \<open>isIntersecting\<close>
  flag): nothing, or \<open>tryDecode\<close> followed by the disconnection of the observer, where
  \<open>tryDecode\<close> runs its function at once or hands it to the idle (or frame) scheduler.
\<close>

datatype IntersectionAction = Ignore | TryDecodeNow | TryDecodeWhenIdle

definition intersection_callback :: "ImgPriority \<Rightarrow> bool list \<Rightarrow> IntersectionAction" where
  "intersection_callback priority entries =
     (case entries of
        [] \<Rightarrow> Ignore
      | isIntersecting # _ \<Rightarrow>
          if \<not> isIntersecting then Ignore
          else if priority = Low then TryDecodeWhenIdle
          else TryDecodeNow)"

section \<open>react/cache.tsx: the bounded cache\<close>

text \<open>
  Modelled from the spec: \<open>LruCache\<close> hands every call to the class \<open>QuickLRU\<close> of the
  quick-lru package, which is not among the sources. The cache below follows the
  specification of the bounded cache: a capacity fixed at construction, eviction of the
  least recently used entry on a \<open>set\<close> beyond capacity, recency updated by \<open>get\<close> and
  \<open>set\<close>. The entries are kept most recently used first.
\<close>

record LruCache =
  maxSize :: nat
  cache_entries :: "(string \<times> string) list"

definition new_cache :: "nat \<Rightarrow> LruCache" where
  "new_cache n = \<lparr>maxSize = n, cache_entries = []\<rparr>"

text \<open>Modelled from the spec: \<open>has\<close> of the absent \<open>QuickLRU\<close>; recency is not updated.\<close>

definition cache_has :: "LruCache \<Rightarrow> string \<Rightarrow> bool" where
  "cache_has c k = (map_of (cache_entries c) k \<noteq> None)"

text \<open>
  Modelled from the spec: \<open>get\<close> of the absent \<open>QuickLRU\<close>; an entry that is present
  becomes the most recently used one.
\<close>

definition cache_get :: "LruCache \<Rightarrow> string \<Rightarrow> string option \<times> LruCache" where
  "cache_get c k =
     (case map_of (cache_entries c) k of
        None \<Rightarrow> (None, c)
      | Some v \<Rightarrow> (Some v, c\<lparr>cache_entries := (k, v) # filter (\<lambda>e. fst e \<noteq> k) (cache_entries c)\<rparr>))"

text \<open>
  Modelled from the spec: \<open>set\<close> of the absent \<open>QuickLRU\<close>; the entry becomes the most
  recently used one and the least recently used entries beyond the capacity are evicted.
\<close>

definition cache_set :: "LruCache \<Rightarrow> string \<Rightarrow> string \<Rightarrow> LruCache" where
  "cache_set c k v =
     c\<lparr>cache_entries := take (maxSize c) ((k, v) # filter (\<lambda>e. fst e \<noteq> k) (cache_entries c))\<rparr>"

definition cache_keys :: "LruCache \<Rightarrow> string list" where
  "cache_keys c = map fst (cache_entries c)"

text \<open>Inserting a list of keys in order, each with a value.\<close>

definition insert_all :: "LruCache \<Rightarrow> (string \<times> string) list \<Rightarrow> LruCache" where
  "insert_all c kvs = foldl (\<lambda>c' (k, v). cache_set c' k v) c kvs"

section \<open>Properties of the base64 helpers\<close>

lemma index_of_nth: "distinct xs \<Longrightarrow> n < length xs \<Longrightarrow> index_of (xs ! n) xs = Some n"
proof (induction xs arbitrary: n)
  case Nil then show ?case by simp
next
  case (Cons x xs)
  show ?case
  proof (cases n)
    case 0 then show ?thesis by simp
  next
    case (Suc m)
    with Cons.prems have "m < length xs" "distinct xs" "xs ! m \<noteq> x"
      by auto
    with Cons.IH[of m] Suc show ?thesis by simp
  qed
qed

lemma distinct_alphabet: "distinct b64_alphabet"
  by (simp add: b64_alphabet_def)

lemma length_alphabet: "length b64_alphabet = 64"
  by (simp add: b64_alphabet_def)

lemma sextets_lt: "list_all (\<lambda>b. b < 256) bs \<Longrightarrow> list_all (\<lambda>n. n < 64) (sextets bs)"
  by (induction bs rule: sextets.induct) auto

lemma octets_sextets: "list_all (\<lambda>b. b < 256) bs \<Longrightarrow> octets (sextets bs) = bs"
  by (induction bs rule: sextets.induct) auto

lemma length_sextets: "length (sextets bs) mod 4 \<in> {0, 2, 3}"
  by (induction bs rule: sextets.induct) auto

lemma those_map_Some: "those (map (\<lambda>x. Some (f x)) xs) = Some (map f xs)"
  by (induction xs) auto

lemma those_index_alphabet:
  assumes "list_all (\<lambda>n. n < 64) ns"
  shows "those (map (\<lambda>c. index_of c b64_alphabet) (map (\<lambda>n. b64_alphabet ! n) ns)) = Some ns"
proof -
  have "map (\<lambda>c. index_of c b64_alphabet) (map (\<lambda>n. b64_alphabet ! n) ns)
      = map (\<lambda>n. Some (id n)) ns"
    using assms
    by (auto simp: list_all_iff index_of_nth distinct_alphabet length_alphabet)
  then show ?thesis
    by (simp only: those_map_Some) simp
qed

lemma alphabet_plain: "list_all plain b64_alphabet"
  by (simp add: b64_alphabet_def plain_def ascii_whitespace_def)

lemma nth_alphabet_plain: "n < 64 \<Longrightarrow> plain (b64_alphabet ! n)"
  using alphabet_plain by (simp add: list_all_length length_alphabet)

lemma encoded_plain:
  "list_all plain (map (\<lambda>n. b64_alphabet ! n) (sextets (map of_char (v :: string))))"
proof -
  have "list_all (\<lambda>n. n < 64) (sextets (map of_char v))"
    by (rule sextets_lt) (simp add: list_all_iff)
  then show ?thesis
    by (simp add: list_all_iff nth_alphabet_plain)
qed

lemma encode_chars:
  "base64UrlEncode v =
     replace_all CHR ''/'' CHR ''_'' (replace_all CHR ''+'' CHR ''-''
       (map (\<lambda>n. b64_alphabet ! n) (sextets (map of_char v))))"
proof -
  let ?cs = "map (\<lambda>n. b64_alphabet ! n) (sextets (map of_char v))"
  let ?tr = "\<lambda>s. replace_all CHR ''/'' CHR ''_'' (replace_all CHR ''+'' CHR ''-'' s)"
  have app: "?tr (btoa v) = ?tr ?cs @ replicate ((3 - length v mod 3) mod 3) CHR ''=''"
    by (simp add: btoa_def replace_all_def)
  have "CHR ''='' \<notin> set (?tr ?cs)"
    using encoded_plain[of v]
    by (auto simp: list_all_iff replace_all_def plain_def split: if_splits)
  then have "remove_all CHR ''='' (?tr ?cs) = ?tr ?cs"
    by (auto simp: remove_all_def filter_id_conv)
  then show ?thesis
    by (simp add: base64UrlEncode_def app remove_all_def)
qed

lemma decode_chars:
  assumes "list_all plain cs"
  shows "replace_all CHR ''_'' CHR ''/'' (replace_all CHR ''-'' CHR ''+''
           (replace_all CHR ''/'' CHR ''_'' (replace_all CHR ''+'' CHR ''-'' cs))) = cs"
  using assms by (induction cs) (auto simp: replace_all_def plain_def)

lemma strip_padding_plain:
  assumes "list_all plain cs"
  shows "strip_padding cs = cs"
proof (cases "cs = []")
  case True then show ?thesis by (simp add: strip_padding_def)
next
  case False
  then have "last cs \<in> set cs" by simp
  with assms have "last cs \<noteq> CHR ''=''"
    by (auto simp: list_all_iff plain_def)
  then show ?thesis by (simp add: strip_padding_def)
qed

lemma strip_padding_restored:
  assumes pl: "list_all plain cs" and len: "length cs mod 4 \<in> {0, 2, 3}"
  shows "strip_padding (restore_padding cs) = cs"
proof -
  consider "length cs mod 4 = 0" | "length cs mod 4 = 2" | "length cs mod 4 = 3"
    using len by auto
  then show ?thesis
  proof cases
    case 1
    then show ?thesis
      using strip_padding_plain[OF pl] by (simp add: restore_padding_def)
  next
    case 2
    then have r: "restore_padding cs = cs @ ''==''"
      by (simp add: restore_padding_def numeral_2_eq_2)
    have "length (cs @ ''=='') mod 4 = 0"
      using 2 by (simp add: mod_Suc)
    then show ?thesis
      unfolding r strip_padding_def by (simp add: butlast_append)
  next
    case 3
    then have r: "restore_padding cs = cs @ ''=''"
      by (simp add: restore_padding_def)
    from 3 have ne: "cs \<noteq> []" by auto
    then have "last cs \<in> set cs" by simp
    with pl have nl: "last cs \<noteq> CHR ''=''"
      by (auto simp: list_all_iff plain_def)
    have "length (cs @ ''='') mod 4 = 0"
      using 3 by (simp add: mod_Suc)
    then show ?thesis
      unfolding r strip_padding_def using ne nl by (simp add: butlast_append)
  qed
qed

lemma atob_alphabet:
  assumes "list_all (\<lambda>b. b < 256) bs"
    and "d = map (\<lambda>n. b64_alphabet ! n) (sextets bs) \<or>
         d = restore_padding (map (\<lambda>n. b64_alphabet ! n) (sextets bs))"
  shows "atob d = Some (map char_of bs)"
proof -
  let ?cs = "map (\<lambda>n. b64_alphabet ! n) (sextets bs)"
  have lt: "list_all (\<lambda>n. n < 64) (sextets bs)"
    using assms(1) by (rule sextets_lt)
  have pl: "list_all plain ?cs"
    using lt by (simp add: list_all_iff nth_alphabet_plain)
  have len: "length ?cs mod 4 \<in> {0, 2, 3}"
    using length_sextets[of bs] by simp
  have ws: "filter (\<lambda>c. \<not> ascii_whitespace c) d = d"
    using pl assms(2)
    by (auto simp: list_all_iff filter_id_conv plain_def restore_padding_def ascii_whitespace_def)
  have st: "strip_padding d = ?cs"
    using assms(2) strip_padding_plain[OF pl] strip_padding_restored[OF pl len] by auto
  have ix: "those (map (\<lambda>c. index_of c b64_alphabet) ?cs) = Some (sextets bs)"
    using lt by (rule those_index_alphabet)
  have l1: "length ?cs mod 4 \<noteq> 1"
    using len by auto
  show ?thesis
    unfolding atob_def ws st Let_def ix
    using l1 by (simp add: octets_sextets[OF assms(1)])
qed

lemma base64Url_roundtrip: "base64UrlDecode (base64UrlEncode v) = Some v"
proof -
  let ?bs = "map of_char v :: nat list"
  let ?cs = "map (\<lambda>n. b64_alphabet ! n) (sextets ?bs)"
  have bytes: "list_all (\<lambda>b. b < 256) ?bs"
    by (simp add: list_all_iff)
  have "base64UrlDecode (base64UrlEncode v) = atob ?cs"
    unfolding base64UrlDecode_def encode_chars decode_chars[OF encoded_plain] ..
  also have "\<dots> = Some (map char_of ?bs)"
    using bytes by (rule atob_alphabet) simp
  also have "map char_of ?bs = v"
    by (simp add: comp_def)
  finally show ?thesis .
qed

lemma base64Url_roundtrip_padded:
  "atob (restore_padding (replace_all CHR ''_'' CHR ''/''
     (replace_all CHR ''-'' CHR ''+'' (base64UrlEncode v)))) = Some v"
proof -
  let ?bs = "map of_char v :: nat list"
  let ?cs = "map (\<lambda>n. b64_alphabet ! n) (sextets ?bs)"
  have bytes: "list_all (\<lambda>b. b < 256) ?bs"
    by (simp add: list_all_iff)
  have "atob (restore_padding (replace_all CHR ''_'' CHR ''/''
     (replace_all CHR ''-'' CHR ''+'' (base64UrlEncode v)))) = atob (restore_padding ?cs)"
    unfolding encode_chars decode_chars[OF encoded_plain] ..
  also have "\<dots> = Some (map char_of ?bs)"
    using bytes by (rule atob_alphabet) simp
  also have "map char_of ?bs = v"
    by (simp add: comp_def)
  finally show ?thesis .
qed

lemma base64Url_alphabet:
  "CHR ''='' \<notin> set (base64UrlEncode v) \<and> CHR ''+'' \<notin> set (base64UrlEncode v)
    \<and> CHR ''/'' \<notin> set (base64UrlEncode v)"
  unfolding encode_chars
  by (auto simp: replace_all_def split: if_splits)
     (use encoded_plain[of v] in \<open>auto simp: list_all_iff plain_def\<close>)

section \<open>Properties of the mutation URL builder\<close>

lemma trim_end_append:
  assumes "\<not> is_whitespace c"
  shows "trim_end (xs @ c # ys) = xs @ c # trim_end ys"
proof -
  have "dropWhile is_whitespace (rev ys @ c # rev xs) = dropWhile is_whitespace (rev ys) @ c # rev xs"
    using assms by (rule dropWhile_append3)
  then show ?thesis by (simp add: trim_end_def)
qed

lemma trim_resize:
  "trim (''resize_'' @ p @ ''bg_'' @ bg) = ''resize_'' @ p @ ''bg_'' @ trim_end bg"
proof -
  have nw: "\<not> is_whitespace CHR ''_''" "\<not> is_whitespace CHR ''r''"
    by (simp_all add: is_whitespace_def)
  have "trim (''resize_'' @ p @ ''bg_'' @ bg) = trim_end ((''resize_'' @ p @ ''bg'') @ CHR ''_'' # bg)"
    using nw by (simp add: trim_def)
  also have "\<dots> = (''resize_'' @ p @ ''bg'') @ CHR ''_'' # trim_end bg"
    using nw(1) by (rule trim_end_append)
  finally show ?thesis by simp
qed

lemma trim_auto: "trim ''auto'' = ''auto''"
  by (simp add: trim_def trim_end_def is_whitespace_def)

lemma small_numbers_simps:
  "num_one small_numbers = Exact 1"
  "num_times small_numbers (Exact x) (Exact y)
     = (if x < 2 ^ 53 \<and> y < 2 ^ 53 \<and> x * y < 2 ^ 53 then Exact (x * y) else Other)"
  "num_divide small_numbers (Exact x) (Exact y)
     = (if x < 2 ^ 53 \<and> y < 2 ^ 53 \<and> y \<noteq> 0 \<and> y dvd x \<and> x div y < 2 ^ 53
        then Exact (x div y) else Other)"
  "Math_round small_numbers (Exact x) = (if x < 2 ^ 53 then Exact x else Other)"
  "num_to_string small_numbers (Exact x) = (if x < 2 ^ 53 then digits x else ''?'')"
  by (simp_all add: small_numbers_def exact_def)

text \<open>
  Claim C1, as amended. For an image request with fit \<open>cover\<close>, both width \<open>W\<close> and
  height \<open>H\<close> set, and any scale factor \<open>s\<close>, the mutation string is
  \<^verbatim>\<open>resize_{round(W*s)}x{round(H*s)}min,fit_{round(W*s)}x{round(H*s)},bg_{B}\<close>, where
  the product, the rounding and the printing of the number are those of the platform,
  and \<open>B\<close> is the background colour without its trailing white space; it is followed
  by the caller's extra mutation (trimmed) when there is one, and ends in \<^verbatim>\<open>,auto\<close>.
\<close>

theorem cover_mutation:
  assumes "fit props = Cover" and "width props = Some w" and "height props = Some h"
  shows "imgSrc_mutation ops props s =
    Inr (Some (''resize_'' @ scaled ops w s @ ''x'' @ scaled ops h s @ ''min''
               @ '',fit_'' @ scaled ops w s @ ''x'' @ scaled ops h s
               @ '',bg_'' @ trim_end (backgroundColor props)
               @ (case mutation props of None \<Rightarrow> [] | Some m \<Rightarrow> '','' @ trim m)
               @ '',auto''))
    \<and> scaled ops w s = num_to_string ops (Math_round ops (num_times ops w s))
    \<and> scaled ops h s = num_to_string ops (Math_round ops (num_times ops h s))"
proof -
  let ?p = "scaled ops w s @ ''x'' @ scaled ops h s @ ''min'' @ '',fit_''
            @ scaled ops w s @ ''x'' @ scaled ops h s @ '',''"
  have r: "resize ops (width props) (height props) s (fit props) (backgroundColor props)
      = Inr (Some (''resize_'' @ ?p @ ''bg_'' @ backgroundColor props))"
    using assms by (simp add: resize_def)
  have "imgSrc_mutation ops props s =
    Inr (Some (''resize_'' @ scaled ops w s @ ''x'' @ scaled ops h s @ ''min''
               @ '',fit_'' @ scaled ops w s @ ''x'' @ scaled ops h s
               @ '',bg_'' @ trim_end (backgroundColor props)
               @ (case mutation props of None \<Rightarrow> [] | Some m \<Rightarrow> '','' @ trim m)
               @ '',auto''))"
    unfolding imgSrc_mutation_def r
    using trim_resize[of ?p "backgroundColor props"]
    by (cases "mutation props") (simp_all add: combineMutations_def trim_auto)
  then show ?thesis
    by (simp add: scaled_def)
qed

text \<open>
  The literal example: width 128, height 128, fit \<open>cover\<close>, scale 1 and the background
  colour \<open>transparent\<close>.
\<close>

theorem cover_mutation_witness:
  "imgSrc_mutation small_numbers
     \<lparr>src = ''KRhBC0tycdeENyP1PQkgBA'', width = Some (Exact 128), height = Some (Exact 128),
      dpiScale = [Exact 1, Exact 2], fit = Cover, backgroundColor = ''transparent'',
      mutation = None, filejetDomain = ''cdn.myapp.com''\<rparr> (Exact 1)
   = Inr (Some ''resize_128x128min,fit_128x128,bg_transparent,auto'')"
  using cover_mutation[of
      "\<lparr>src = ''KRhBC0tycdeENyP1PQkgBA'', width = Some (Exact 128), height = Some (Exact 128),
      dpiScale = [Exact 1, Exact 2], fit = Cover, backgroundColor = ''transparent'',
      mutation = None, filejetDomain = ''cdn.myapp.com''\<rparr>" "Exact 128" "Exact 128"
      small_numbers "Exact 1"]
  by (simp add: small_numbers_simps digits.simps trim_end_def is_whitespace_def)

text \<open>
  As stated the claim fails for a background colour that ends in white space:
  \<open>combineMutations\<close> trims every part, so the space of \<^verbatim>\<open>'red '\<close> is not in the result.
\<close>

theorem cover_mutation_counterexample:
  "imgSrc_mutation small_numbers
     \<lparr>src = ''KRhBC0tycdeENyP1PQkgBA'', width = Some (Exact 128), height = Some (Exact 128),
      dpiScale = [Exact 1], fit = Cover, backgroundColor = ''red '',
      mutation = None, filejetDomain = ''cdn.myapp.com''\<rparr> (Exact 1)
   = Inr (Some ''resize_128x128min,fit_128x128,bg_red,auto'')
   \<and> ''resize_128x128min,fit_128x128,bg_red,auto''
       \<noteq> ''resize_128x128min,fit_128x128,bg_red ,auto''"
  by (simp add: imgSrc_mutation_def resize_def combineMutations_def scaled_def
      small_numbers_simps digits.simps trim_def trim_end_def is_whitespace_def)

lemma resize_total: "\<exists>r. resize ops w h s f bg = Inr r"
  by (cases f; cases w; cases h) (simp_all add: resize_def)

lemma resize_absent: "resize ops None None s f bg = Inr None"
  by (simp add: resize_def)

lemma combineMutations_auto:
  "combineMutations [r, e, Some ''auto''] =
     Some ((case r of None \<Rightarrow> [] | Some x \<Rightarrow> trim x @ '','')
           @ (case e of None \<Rightarrow> [] | Some y \<Rightarrow> trim y @ '','') @ ''auto'')"
  by (cases r; cases e) (simp_all add: combineMutations_def trim_auto)

lemma imgSrc_mutation_total: "\<exists>m. imgSrc_mutation ops props s = Inr (Some m)"
proof -
  obtain r where
    "resize ops (width props) (height props) s (fit props) (backgroundColor props) = Inr r"
    using resize_total[of ops "width props" "height props" s "fit props" "backgroundColor props"]
    by blast
  then show ?thesis
    by (simp add: imgSrc_mutation_def combineMutations_auto)
qed

lemma is_external_prefixes:
  "is_external s =
     (startsWith s ''https://'' \<or> startsWith s ''./'' \<or> startsWith s ''../''
       \<or> startsWith s ''/'' \<or> startsWith s ''//'')"
  by (simp add: is_external_def)

text \<open>
  Claim C2, as amended. A source reference that starts with one of the literal prefixes
  \<^verbatim>\<open>https://\<close>, \<^verbatim>\<open>./\<close>, \<^verbatim>\<open>../\<close>, \<^verbatim>\<open>/\<close>, \<^verbatim>\<open>//\<close> is handed to the \<open>URL\<close> constructor.
  Where the constructor throws, the builder fails with its error. Where it yields the
  absolute URL \<open>href\<close>, the path segment of the result is \<^verbatim>\<open>@ext_\<close> followed by the
  URL-safe base64 encoding of \<open>href\<close>, in which none of \<^verbatim>\<open>=\<close>, \<^verbatim>\<open>+\<close>, \<^verbatim>\<open>/\<close> occurs;
  decoding that encoding gives \<open>href\<close> back, with \<open>base64UrlDecode\<close> as well as with
  \<open>atob\<close> after the two replacements are reversed and the padding is restored. Every
  other source reference is the path segment as it stands.
\<close>

theorem source_path_segment:
  "\<exists>m. imgSrc_mutation ops props scale = Inr (Some m) \<and>
     (if startsWith (src props) ''https://'' \<or> startsWith (src props) ''./''
          \<or> startsWith (src props) ''../'' \<or> startsWith (src props) ''/''
          \<or> startsWith (src props) ''//''
      then (case URL_href (src props) of
              None \<Rightarrow> imgSrc ops URL_href props scale = Inl InvalidURL
            | Some href \<Rightarrow>
                imgSrc ops URL_href props scale =
                  Inr (''https://'' @ filejetDomain props @ ''/'' @ ''@ext_''
                       @ base64UrlEncode href @ ''/'' @ m)
                \<and> base64UrlDecode (base64UrlEncode href) = Some href
                \<and> atob (restore_padding (replace_all CHR ''_'' CHR ''/''
                     (replace_all CHR ''-'' CHR ''+'' (base64UrlEncode href)))) = Some href
                \<and> CHR ''='' \<notin> set (base64UrlEncode href)
                \<and> CHR ''+'' \<notin> set (base64UrlEncode href)
                \<and> CHR ''/'' \<notin> set (base64UrlEncode href))
      else imgSrc ops URL_href props scale =
             Inr (''https://'' @ filejetDomain props @ ''/'' @ src props @ ''/'' @ m))"
proof -
  obtain m where m: "imgSrc_mutation ops props scale = Inr (Some m)"
    using imgSrc_mutation_total[of ops props scale] by blast
  have "if is_external (src props)
      then (case URL_href (src props) of
              None \<Rightarrow> imgSrc ops URL_href props scale = Inl InvalidURL
            | Some href \<Rightarrow>
                imgSrc ops URL_href props scale =
                  Inr (''https://'' @ filejetDomain props @ ''/'' @ ''@ext_''
                       @ base64UrlEncode href @ ''/'' @ m)
                \<and> base64UrlDecode (base64UrlEncode href) = Some href
                \<and> atob (restore_padding (replace_all CHR ''_'' CHR ''/''
                     (replace_all CHR ''-'' CHR ''+'' (base64UrlEncode href)))) = Some href
                \<and> CHR ''='' \<notin> set (base64UrlEncode href)
                \<and> CHR ''+'' \<notin> set (base64UrlEncode href)
                \<and> CHR ''/'' \<notin> set (base64UrlEncode href))
      else imgSrc ops URL_href props scale =
             Inr (''https://'' @ filejetDomain props @ ''/'' @ src props @ ''/'' @ m)"
    using base64Url_alphabet
    by (simp add: imgSrc_def m interpolate_def base64Url_roundtrip base64Url_roundtrip_padded
        split: option.split)
  then show ?thesis
    unfolding is_external_prefixes using m by blast
qed

text \<open>
  The example of the documentation: the source \<^verbatim>\<open>https://myapp.com/image.jpg\<close> with the
  domain \<^verbatim>\<open>cdn.myapp.com\<close>; an absolute URL resolves to itself.
\<close>

theorem source_path_segment_witness:
  "imgSrc small_numbers (\<lambda>s. Some s)
     \<lparr>src = ''https://myapp.com/image.jpg'', width = Some (Exact 128),
      height = Some (Exact 128), dpiScale = [Exact 1, Exact 2], fit = Cover,
      backgroundColor = ''transparent'', mutation = None,
      filejetDomain = ''cdn.myapp.com''\<rparr> (Exact 1)
   = Inr (''https://cdn.myapp.com/@ext_aHR0cHM6Ly9teWFwcC5jb20vaW1hZ2UuanBn/''
          @ ''resize_128x128min,fit_128x128,bg_transparent,auto'')
   \<and> base64UrlDecode ''aHR0cHM6Ly9teWFwcC5jb20vaW1hZ2UuanBn'' = Some ''https://myapp.com/image.jpg''"
proof -
  let ?props = "\<lparr>src = ''https://myapp.com/image.jpg'', width = Some (Exact 128),
      height = Some (Exact 128), dpiScale = [Exact 1, Exact 2], fit = Cover,
      backgroundColor = ''transparent'', mutation = None,
      filejetDomain = ''cdn.myapp.com''\<rparr>"
  have enc: "base64UrlEncode ''https://myapp.com/image.jpg'' = ''aHR0cHM6Ly9teWFwcC5jb20vaW1hZ2UuanBn''"
    by (simp add: base64UrlEncode_def btoa_def b64_alphabet_def replace_all_def remove_all_def)
  have mut: "imgSrc_mutation small_numbers ?props (Exact 1)
      = Inr (Some ''resize_128x128min,fit_128x128,bg_transparent,auto'')"
    by (simp add: imgSrc_mutation_def resize_def combineMutations_def scaled_def
      small_numbers_simps digits.simps trim_def trim_end_def is_whitespace_def)
  have ext: "startsWith (src ?props) ''https://''"
    by (simp add: startsWith_def)
  show ?thesis
    using source_path_segment[of small_numbers ?props "Exact 1" "\<lambda>s. Some s"] ext
    unfolding mut by (simp add: enc)
qed

text \<open>
  As stated the claim fails for a source that has one of the prefixes and that the
  \<open>URL\<close> constructor refuses, such as \<^verbatim>\<open>https://\<close> alone: the builder fails.
\<close>

theorem source_path_segment_counterexample:
  "imgSrc small_numbers (\<lambda>s. if s = ''https://'' then None else Some s)
     \<lparr>src = ''https://'', width = Some (Exact 128), height = Some (Exact 128),
      dpiScale = [Exact 1, Exact 2], fit = Cover, backgroundColor = ''transparent'',
      mutation = None, filejetDomain = ''cdn.myapp.com''\<rparr> (Exact 1)
   = Inl InvalidURL"
  by (simp add: imgSrc_def imgSrc_mutation_def resize_def is_external_def startsWith_def)

lemma imgSrc_fails:
  "is_external (src props) \<Longrightarrow> URL_href (src props) = None
    \<Longrightarrow> imgSrc ops URL_href props s = Inl InvalidURL"
  using imgSrc_mutation_total[of ops props s] by (auto simp: imgSrc_def)

lemma imgSrc_succeeds:
  "\<not> (is_external (src props) \<and> URL_href (src props) = None)
    \<Longrightarrow> \<exists>u. imgSrc ops URL_href props s = Inr u"
  using imgSrc_mutation_total[of ops props s] by (auto simp: imgSrc_def)

lemma imgSrc_error:
  "(imgSrc ops URL_href props s = Inl e)
     = (e = InvalidURL \<and> is_external (src props) \<and> URL_href (src props) = None)"
proof (cases "is_external (src props) \<and> URL_href (src props) = None")
  case True
  then show ?thesis
    using imgSrc_fails[of props URL_href ops s] by auto
next
  case False
  then show ?thesis
    using imgSrc_succeeds[of props URL_href ops s] by auto
qed

lemma sequence_Inr:
  "list_all (\<lambda>x. \<exists>y. f x = Inr y) xs \<Longrightarrow> \<exists>ys. sequence (map f xs) = Inr ys"
proof (induction xs)
  case Nil
  show ?case by simp
next
  case (Cons x xs)
  then obtain y ys where "f x = Inr y" "sequence (map f xs) = Inr ys"
    by auto
  then show ?case by simp
qed

lemma filejetImg_error:
  "(filejetImg ops URL_href props = Inl e)
     = (e = InvalidURL \<and> is_external (src props) \<and> URL_href (src props) = None)"
proof (cases "is_external (src props) \<and> URL_href (src props) = None")
  case True
  then have "imgSrc ops URL_href props (num_one ops) = Inl InvalidURL"
    using imgSrc_fails[of props URL_href ops "num_one ops"] by simp
  then show ?thesis
    using True by (auto simp: filejetImg_def)
next
  case False
  obtain u where u: "imgSrc ops URL_href props (num_one ops) = Inr u"
    using imgSrc_succeeds[of props URL_href ops "num_one ops"] False by blast
  have "list_all (\<lambda>s. \<exists>y. imgSrc ops URL_href props s = Inr y) (dpiScale props)"
    using imgSrc_succeeds[of props URL_href ops] False by (simp add: list_all_iff)
  then obtain us where "sequence (map (imgSrc ops URL_href props) (dpiScale props)) = Inr us"
    using sequence_Inr[of "imgSrc ops URL_href props" "dpiScale props"] by blast
  then show ?thesis
    using False u by (auto simp: filejetImg_def)
qed

text \<open>
  Claim C3, as amended. When neither width nor height is set, for either fit, \<open>resize\<close>
  returns no mutation and no error, so the mutation string consists of the caller's
  extra mutation (when present) and \<^verbatim>\<open>auto\<close>. \<open>resize\<close> raises \<open>InvalidDimensions\<close> on no
  input at all: its early return covers the only case in which the error is thrown. The
  only error of \<open>imgSrc\<close> and of \<open>filejetImg\<close> is the one of the \<open>URL\<close> constructor, raised
  exactly when the source has one of the external prefixes and the constructor throws.
\<close>

theorem absent_dimensions_no_error:
  "resize ops None None s f bg = Inr None
   \<and> imgSrc_mutation ops (props\<lparr>width := None, height := None\<rparr>) s =
        Inr (Some ((case mutation props of None \<Rightarrow> [] | Some y \<Rightarrow> trim y @ '','') @ ''auto''))
   \<and> resize ops w h s' f' bg' \<noteq> Inl InvalidDimensions
   \<and> (imgSrc ops URL_href props' s'' = Inl e)
       = (e = InvalidURL \<and> is_external (src props') \<and> URL_href (src props') = None)
   \<and> (filejetImg ops URL_href props' = Inl e)
       = (e = InvalidURL \<and> is_external (src props') \<and> URL_href (src props') = None)"
proof -
  obtain r where "resize ops w h s' f' bg' = Inr r"
    using resize_total[of ops w h s' f' bg'] by blast
  then show ?thesis
    by (simp add: imgSrc_mutation_def resize_absent combineMutations_auto imgSrc_error
        filejetImg_error)
qed

text \<open>
  A request without dimensions whose source the \<open>URL\<close> constructor refuses: the error is
  the constructor's.
\<close>

theorem absent_dimensions_witness:
  "filejetImg small_numbers (\<lambda>s. if s = ''https://'' then None else Some s)
     \<lparr>src = ''https://'', width = None, height = None,
      dpiScale = [Exact 1, Exact 2], fit = Cover, backgroundColor = ''transparent'',
      mutation = None, filejetDomain = ''cdn.myapp.com''\<rparr>
   = Inl InvalidURL"
  using absent_dimensions_no_error[where ops = small_numbers and e = InvalidURL
      and URL_href = "\<lambda>s. if s = ''https://'' then None else Some s"
      and props' = "\<lparr>src = ''https://'', width = None, height = None,
      dpiScale = [Exact 1, Exact 2], fit = Cover, backgroundColor = ''transparent'',
      mutation = None, filejetDomain = ''cdn.myapp.com''\<rparr>"]
  by (simp add: is_external_def startsWith_def)

text \<open>
  As stated the claim fails: with fit \<open>cover\<close> and neither dimension the builder
  returns URLs whose only mutation is \<^verbatim>\<open>auto\<close>.
\<close>

theorem absent_dimensions_counterexample:
  "filejetImg small_numbers (\<lambda>s. Some s)
     \<lparr>src = ''KRhBC0tycdeENyP1PQkgBA'', width = None, height = None,
      dpiScale = [Exact 1, Exact 2], fit = Cover, backgroundColor = ''transparent'',
      mutation = None, filejetDomain = ''cdn.myapp.com''\<rparr>
   = Inr \<lparr>img_src = ''https://cdn.myapp.com/KRhBC0tycdeENyP1PQkgBA/auto'',
          img_srcSet = [(''https://cdn.myapp.com/KRhBC0tycdeENyP1PQkgBA/auto'', Exact 1),
                        (''https://cdn.myapp.com/KRhBC0tycdeENyP1PQkgBA/auto'', Exact 2)],
          img_width = None, img_height = None\<rparr>"
  by (simp add: filejetImg_def imgSrc_def imgSrc_mutation_def resize_def combineMutations_def
      trim_auto is_external_def startsWith_def interpolate_def small_numbers_simps)








section \<open>Properties of the image widget\<close>



lemma numeric_percentage: "isPercentage d \<Longrightarrow> numeric d measured = measured"
  by (auto simp: numeric_def isPercentage_def split: option.splits Dimension.splits)

lemma Img_dimensions_width: "fst (Img_dimensions ops ratio_of (Some w) h thumbhash) = Some w"
  by (cases h; cases thumbhash) (simp_all add: Img_dimensions_def)

lemma Img_dimensions_height: "snd (Img_dimensions ops ratio_of w (Some h) thumbhash) = Some h"
  by (cases w; cases thumbhash) (simp_all add: Img_dimensions_def)

text \<open>
  Claim C6, as amended. On a resize event, with both dimensions resolved: when only
  the width is a percentage, the measured width is committed if and only if it lies
  outside the band from 0.75 to 1.5 times the resolved width, and likewise for the
  height when only the height is a percentage; when both are percentages, the measured
  width and height are committed together if and only if the measured width lies outside
  the band of the resolved width. A measurement that is not committed leaves the state
  as it is. The resolved value of a percentage dimension is its committed measurement.
\<close>

theorem measured_size_commit:
  "resize_observer True True False (Some w) (Some h) wrapperSizes [(newWidth, newHeight)]
     = (if in_band w newWidth then None else Some (wrapperSizes\<lparr>ws_width := Some newWidth\<rparr>))
   \<and> resize_observer True False True (Some w) (Some h) wrapperSizes [(newWidth, newHeight)]
     = (if in_band h newHeight then None else Some (wrapperSizes\<lparr>ws_height := Some newHeight\<rparr>))
   \<and> resize_observer True True True (Some w) (Some h) wrapperSizes [(newWidth, newHeight)]
     = (if in_band w newWidth then None
        else Some \<lparr>ws_width = Some newWidth, ws_height = Some newHeight\<rparr>)
   \<and> (isPercentage pw \<and> ws_width wrapperSizes = Some w
        \<longrightarrow> fst (Img_dimensions_measured ops ratio_of pw ph thumbhash wrapperSizes) = Some w)
   \<and> (isPercentage ph \<and> ws_height wrapperSizes = Some h
        \<longrightarrow> snd (Img_dimensions_measured ops ratio_of pw ph thumbhash wrapperSizes) = Some h)"
  by (auto simp: resize_observer_def observe_entry_def in_band_def Img_dimensions_measured_def
      numeric_percentage Img_dimensions_width Img_dimensions_height)

text \<open>
  A width of 50% measured at 100: a new measurement of 200 is committed, one of 120 is
  not. Both dimensions are known here, so the arithmetic of the dimensions memo is not
  reached and any instance of it serves.
\<close>

theorem measured_size_commit_witness:
  "fst (Img_dimensions_measured
      \<lparr>num_one = (1::number), num_times = (\<lambda>a b. a), num_divide = (\<lambda>a b. a),
        Math_round = (\<lambda>a. a), num_to_string = (\<lambda>a. [])\<rparr>
      (\<lambda>data. 2) (Some (Text ''50%'')) (Some (Number 40)) None
      \<lparr>ws_width = Some 100, ws_height = None\<rparr>) = Some 100
   \<and> snd (Img_dimensions_measured
      \<lparr>num_one = (1::number), num_times = (\<lambda>a b. a), num_divide = (\<lambda>a b. a),
        Math_round = (\<lambda>a. a), num_to_string = (\<lambda>a. [])\<rparr>
      (\<lambda>data. 2) (Some (Number 40)) (Some (Text ''50%'')) None
      \<lparr>ws_width = None, ws_height = Some 100\<rparr>) = Some 100
   \<and> resize_observer True True False (Some 100) (Some 40)
        \<lparr>ws_width = Some 100, ws_height = None\<rparr> [(200, 40)]
      = Some \<lparr>ws_width = Some 200, ws_height = None\<rparr>
   \<and> resize_observer True True False (Some 100) (Some 40)
        \<lparr>ws_width = Some 100, ws_height = None\<rparr> [(120, 40)] = None"
proof -
  have p: "isPercentage (Some (Text ''50%'' :: number Dimension))"
    by (simp add: isPercentage_def endsWith_def)
  have b: "\<not> in_band 100 200" "in_band 100 120"
    by (simp_all add: in_band_def)
  show ?thesis
    using p b
      measured_size_commit[where w = 100 and h = 40 and newWidth = 200 and newHeight = 40
        and wrapperSizes = "\<lparr>ws_width = Some 100, ws_height = None\<rparr>"
        and pw = "Some (Text ''50%'')" and ph = "Some (Number 40)" and thumbhash = None
        and ratio_of = "\<lambda>data. 2" and ops = "\<lparr>num_one = (1::number), num_times = (\<lambda>a b. a), num_divide = (\<lambda>a b. a),
        Math_round = (\<lambda>a. a), num_to_string = (\<lambda>a. [])\<rparr>"]
      measured_size_commit[where w = 100 and h = 40 and newWidth = 120 and newHeight = 40
        and wrapperSizes = "\<lparr>ws_width = Some 100, ws_height = None\<rparr>"
        and pw = "Some (Text ''50%'')" and ph = "Some (Number 40)" and thumbhash = None
        and ratio_of = "\<lambda>data. 2" and ops = "\<lparr>num_one = (1::number), num_times = (\<lambda>a b. a), num_divide = (\<lambda>a b. a),
        Math_round = (\<lambda>a. a), num_to_string = (\<lambda>a. [])\<rparr>"]
      measured_size_commit[where w = 40 and h = 100 and newWidth = 40 and newHeight = 100
        and wrapperSizes = "\<lparr>ws_width = None, ws_height = Some 100\<rparr>"
        and pw = "Some (Number 40)" and ph = "Some (Text ''50%'')" and thumbhash = None
        and ratio_of = "\<lambda>data. 2" and ops = "\<lparr>num_one = (1::number), num_times = (\<lambda>a b. a), num_divide = (\<lambda>a b. a),
        Math_round = (\<lambda>a. a), num_to_string = (\<lambda>a. [])\<rparr>"]
    by simp
qed

text \<open>
  As stated the claim fails when both dimensions are percentages: a measured height of
  500 against a committed height of 100 is outside the band and is not committed, the
  measured width being unchanged.
\<close>

theorem measured_size_commit_counterexample:
  "resize_observer True True True (Some 100) (Some 100)
     \<lparr>ws_width = Some 100, ws_height = Some 100\<rparr> [(100, 500)] = None
   \<and> \<not> in_band 100 500"
  by (simp add: resize_observer_def observe_entry_def in_band_def)

lemma run_snoc: "run (signals @ [s]) = handle (run signals) s"
  by (simp add: run_def)

text \<open>
  Claim C4, as amended. The load state starts at \<open>Loading\<close>. The decode-complete
  signal sets it to \<open>Loaded\<close> and the load-failure signal sets it to \<open>Error\<close>, whatever
  the state before, so after any signal the state is the one of the last signal and is
  never \<open>Loading\<close> again.
\<close>

theorem load_state_transitions:
  "loadingState (run []) = Loading
   \<and> loadingState (handle st DecodeComplete) = Loaded
   \<and> loadingState (handle st LoadFailure) = Error
   \<and> loadingState (run (signals @ [s]))
       = (case s of DecodeComplete \<Rightarrow> Loaded | LoadFailure \<Rightarrow> Error)
   \<and> loadingState (run (signals @ [s])) \<noteq> Loading"
  by (cases s) (simp_all add: run_snoc, simp_all add: run_def initial_def)

text \<open>
  As stated the claim fails: a load failure signalled after the state has become
  \<open>Loaded\<close> (the image element is still mounted then) moves the state to \<open>Error\<close>.
\<close>

theorem load_state_transitions_counterexample:
  "loadingState (run [DecodeComplete]) = Loaded
   \<and> loadingState (run [DecodeComplete, LoadFailure]) = Error"
  by (simp add: run_def initial_def)

text \<open>
  Claim C8, as amended. A load-failure signal sets the state to \<open>Error\<close>; the image
  element is then not rendered, the error layer is rendered, and the placeholder layer
  stays rendered before it: the thumbhash image when there is a thumbhash (which
  \<open>shouldRenderThumbhash\<close> lets decode), the placeholder node otherwise.
\<close>

theorem failure_layers:
  "loadingState (handle st LoadFailure) = Error
   \<and> render (handle st LoadFailure) thumbhash
       = (case thumbhash of
            None \<Rightarrow> [PlaceholderNode, ErrorNode]
          | Some t \<Rightarrow> [ThumbhashLayer, ErrorNode])
   \<and> shouldRenderThumbhash img (handle st LoadFailure)"
  by (cases thumbhash; cases img) (simp_all add: render_def shouldRenderThumbhash_def)

text \<open>
  A failure of an image that had been loaded and is complete, with a thumbhash.
\<close>

theorem failure_layers_witness:
  "loadingState (handle (run [DecodeComplete]) LoadFailure) = Error
   \<and> render (handle (run [DecodeComplete]) LoadFailure)
        (Some \<lparr>thumbhash_id = ''HBkSHYSIeHiPiHh8eJd4eTN0EEQG'', thumbhash_data = []\<rparr>)
       = [ThumbhashLayer, ErrorNode]
   \<and> shouldRenderThumbhash (Some True) (handle (run [DecodeComplete]) LoadFailure)"
  using failure_layers[of "run [DecodeComplete]"
      "Some \<lparr>thumbhash_id = ''HBkSHYSIeHiPiHh8eJd4eTN0EEQG'', thumbhash_data = []\<rparr>"
      "Some True"]
  by simp

text \<open>
  As stated the claim fails: after a load failure the placeholder layer is among the
  rendered layers, with and without a thumbhash.
\<close>

theorem failure_layers_counterexample:
  "render (run [LoadFailure])
     (Some \<lparr>thumbhash_id = ''HBkSHYSIeHiPiHh8eJd4eTN0EEQG'', thumbhash_data = []\<rparr>)
     = [ThumbhashLayer, ErrorNode]
   \<and> render (run [LoadFailure]) None = [PlaceholderNode, ErrorNode]"
  by (simp add: run_def initial_def render_def)

text \<open>
  Claim C5, as amended. With priority \<open>high\<close> the animation-frame callback behaves as
  with priority \<open>auto\<close>: it does nothing when \<open>shouldRender\<close> is false, decodes when the
  element is within the viewport widened by the root margin, and otherwise registers an
  intersection observer. The callback of the observer looks at the first entry of a
  report only: when that entry is intersecting it runs the decode attempt at once, which
  decodes if \<open>shouldRender\<close> holds then; a report that is empty or whose first entry is
  not intersecting is ignored, whatever its other entries.
\<close>

theorem high_priority_frame:
  "animation_frame High shouldRender rect window rootMargin
     = (if \<not> shouldRender then Skip
        else if isInViewport rect window rootMargin then Decode
        else Observe)
   \<and> animation_frame High shouldRender rect window rootMargin
     = animation_frame Auto shouldRender rect window rootMargin
   \<and> intersection_callback High (True # entries) = TryDecodeNow
   \<and> intersection_callback High (False # entries) = Ignore
   \<and> intersection_callback High [] = Ignore
   \<and> try_decode shouldRender' = (if shouldRender' then Decode else Skip)"
  by (simp add: animation_frame_def intersection_callback_def try_decode_def)

text \<open>
  As stated the claim fails: with priority \<open>high\<close> an element far below the viewport
  is not decoded at the animation frame; an intersection observer is registered.
\<close>

theorem high_priority_frame_counterexample:
  "animation_frame High True
     \<lparr>rect_left = 0, rect_right = 100, rect_top = 5000, rect_bottom = 5100\<rparr>
     \<lparr>innerWidth = 1280, innerHeight = 720\<rparr> 100 = Observe"
  by (simp add: animation_frame_def isInViewport_def)

section \<open>Properties of the bounded cache\<close>

lemma cache_has_keys: "cache_has c k = (k \<in> set (cache_keys c))"
  by (simp add: cache_has_def cache_keys_def map_of_eq_None_iff)

lemma filter_other_keys:
  "k \<notin> set (map fst es) \<Longrightarrow> filter (\<lambda>e. fst e \<noteq> k) es = es"
  by (induction es) auto

lemma cache_entries_set:
  "k \<notin> set (cache_keys c)
    \<Longrightarrow> cache_entries (cache_set c k v) = take (maxSize c) ((k, v) # cache_entries c)"
  by (simp add: cache_keys_def cache_set_def filter_other_keys)

lemma maxSize_set: "maxSize (cache_set c k v) = maxSize c"
  by (simp add: cache_set_def)

lemma take_append_take: "take n (xs @ take n ys) = take n (xs @ ys)"
  by (simp add: min_def)

lemma insert_all_Cons: "insert_all c ((k, v) # kvs) = insert_all (cache_set c k v) kvs"
  by (simp add: insert_all_def)

lemma insert_all_entries:
  "distinct (map fst kvs) \<Longrightarrow> set (map fst kvs) \<inter> set (cache_keys c) = {}
    \<Longrightarrow> length (cache_entries c) \<le> maxSize c
    \<Longrightarrow> cache_entries (insert_all c kvs) = take (maxSize c) (rev kvs @ cache_entries c)"
proof (induction kvs arbitrary: c)
  case Nil
  then show ?case
    by (simp add: insert_all_def)
next
  case (Cons kv kvs)
  obtain k v where kv: "kv = (k, v)" by (cases kv)
  let ?c = "cache_set c k v"
  from Cons.prems kv have fresh: "k \<notin> set (cache_keys c)" by auto
  then have ents: "cache_entries ?c = take (maxSize c) ((k, v) # cache_entries c)"
    by (rule cache_entries_set)
  have "set (cache_entries ?c) \<subseteq> insert (k, v) (set (cache_entries c))"
    unfolding ents using set_take_subset[of "maxSize c" "(k, v) # cache_entries c"] by simp
  then have "set (cache_keys ?c) \<subseteq> insert k (set (cache_keys c))"
    by (auto simp: cache_keys_def)
  with Cons.prems kv have disj: "set (map fst kvs) \<inter> set (cache_keys ?c) = {}"
    by auto
  have cap: "length (cache_entries ?c) \<le> maxSize ?c"
    by (simp add: ents maxSize_set)
  from Cons.prems have "distinct (map fst kvs)" by simp
  then have "cache_entries (insert_all ?c kvs)
      = take (maxSize ?c) (rev kvs @ cache_entries ?c)"
    using disj cap by (rule Cons.IH)
  then show ?case
    by (simp add: kv insert_all_Cons maxSize_set ents take_append_take)
qed

lemma insert_all_new:
  "distinct (map fst kvs)
    \<Longrightarrow> cache_entries (insert_all (new_cache n) kvs) = take n (rev kvs)"
  using insert_all_entries[of kvs "new_cache n"]
  by (simp add: new_cache_def cache_keys_def)

lemma maxSize_insert_all: "maxSize (insert_all c kvs) = maxSize c"
  by (induction kvs arbitrary: c) (auto simp: insert_all_def maxSize_set)

text \<open>
  Claim C10. Into a cache of capacity \<open>n\<close>, \<open>n + 1\<close> entries with distinct keys are
  inserted: \<open>k1\<close> first, then those of \<open>kvs\<close>, then \<open>k\<close>. Afterwards the keys present
  are all but \<open>k1\<close>, the least recently used one. If \<open>k1\<close> is read before \<open>k\<close> is
  inserted, the read returns its value and \<open>k1\<close> stays, and the key evicted is \<open>k2\<close>,
  the one inserted second.
\<close>

theorem lru_eviction:
  assumes "distinct (k1 # map fst kvs @ [k])" and "n = Suc (length kvs)"
  shows "cache_keys (insert_all (new_cache n) ((k1, v1) # kvs @ [(k, v)])) = k # rev (map fst kvs)
    \<and> \<not> cache_has (insert_all (new_cache n) ((k1, v1) # kvs @ [(k, v)])) k1
    \<and> (kvs = (k2, v2) # rest \<longrightarrow>
         fst (cache_get (insert_all (new_cache n) ((k1, v1) # kvs)) k1) = Some v1
         \<and> cache_keys
             (cache_set (snd (cache_get (insert_all (new_cache n) ((k1, v1) # kvs)) k1)) k v)
            = k # k1 # rev (map fst rest))"
proof (intro conjI impI)
  have d: "distinct (map fst ((k1, v1) # kvs @ [(k, v)]))"
    using assms(1) by simp
  show keys: "cache_keys (insert_all (new_cache n) ((k1, v1) # kvs @ [(k, v)]))
      = k # rev (map fst kvs)"
    using insert_all_new[OF d, of n] assms(2) by (simp add: cache_keys_def rev_map)
  show "\<not> cache_has (insert_all (new_cache n) ((k1, v1) # kvs @ [(k, v)])) k1"
    unfolding cache_has_keys keys using assms(1) by auto
next
  assume kvs: "kvs = (k2, v2) # rest"
  let ?full = "insert_all (new_cache n) ((k1, v1) # kvs)"
  have d: "distinct (map fst ((k1, v1) # kvs))"
    using assms(1) by simp
  have ents: "cache_entries ?full = rev kvs @ [(k1, v1)]"
    using insert_all_new[OF d, of n] assms(2) by simp
  have none: "map_of (rev kvs) k1 = None"
    using assms(1) by (auto simp: map_of_eq_None_iff)
  have look: "map_of (cache_entries ?full) k1 = Some v1"
    unfolding ents by (simp add: map_of_append map_add_def none)
  have g: "cache_get ?full k1
      = (Some v1, ?full\<lparr>cache_entries := (k1, v1) # filter (\<lambda>e. fst e \<noteq> k1) (cache_entries ?full)\<rparr>)"
    unfolding cache_get_def look by simp
  show "fst (cache_get ?full k1) = Some v1"
    unfolding g by simp
  have filt: "filter (\<lambda>e. fst e \<noteq> k1) (rev kvs) = rev kvs"
    using assms(1) by (intro filter_other_keys) auto
  have got: "cache_entries (snd (cache_get ?full k1)) = (k1, v1) # rev kvs"
    unfolding g by (simp add: ents filt)
  have sz: "maxSize (snd (cache_get ?full k1)) = n"
    unfolding g by (simp add: maxSize_insert_all new_cache_def)
  have fresh: "k \<notin> set (cache_keys (snd (cache_get ?full k1)))"
    using assms(1) by (auto simp: cache_keys_def got)
  have "cache_entries (cache_set (snd (cache_get ?full k1)) k v)
      = take n ((k, v) # (k1, v1) # rev kvs)"
    using cache_entries_set[OF fresh, of v] unfolding got sz .
  also have "\<dots> = (k, v) # (k1, v1) # rev rest"
    using assms(2) by (simp add: kvs)
  finally show "cache_keys (cache_set (snd (cache_get ?full k1)) k v)
      = k # k1 # rev (map fst rest)"
    by (simp add: cache_keys_def rev_map)
qed

text \<open>
  Capacity 2 and the keys \<open>a\<close>, \<open>b\<close>, \<open>c\<close>.
\<close>

theorem lru_eviction_witness:
  "cache_keys (insert_all (new_cache 2) [(''a'', ''1''), (''b'', ''2''), (''c'', ''3'')])
     = [''c'', ''b'']
   \<and> \<not> cache_has (insert_all (new_cache 2) [(''a'', ''1''), (''b'', ''2''), (''c'', ''3'')]) ''a''
   \<and> cache_keys (cache_set (snd (cache_get
        (insert_all (new_cache 2) [(''a'', ''1''), (''b'', ''2'')]) ''a'')) ''c'' ''3'')
     = [''c'', ''a'']"
  using lru_eviction[of "''a''" "[(''b'', ''2'')]" "''c''" 2 "''1''" "''3''" "''b''" "''2''" "[]"]
  by simp

end
